theory Spec2Isabelle
  imports Main
begin

section \<open>Cookie parameter validation (parameters/cookie\_parameters.go)\<close>

text \<open>
  The theory embeds \<^verbatim>\<open>paramValidator.ValidateCookieParams\<close>. Go strings are byte
  strings (\<open>string\<close>, a list of 8-bit characters). The functions of the Go standard
  library that the code calls (\<^verbatim>\<open>strings.ToLower\<close>, \<^verbatim>\<open>strings.TrimSpace\<close>,
  \<^verbatim>\<open>strconv.ParseBool\<close>, \<^verbatim>\<open>strconv.ParseFloat\<close>) are modelled first.
\<close>

subsection \<open>package strings\<close>

definition upper_letters :: "char list" where
  "upper_letters = ''ABCDEFGHIJKLMNOPQRSTUVWXYZ''"

definition lower_letters :: "char list" where
  "lower_letters = ''abcdefghijklmnopqrstuvwxyz''"

text \<open>One byte of \<^verbatim>\<open>strings.ToLower\<close>: \<open>A\<close>..\<open>Z\<close> go to \<open>a\<close>..\<open>z\<close>, every other byte stays.\<close>

definition lower_char :: "char \<Rightarrow> char" where
  "lower_char c = (case map_of (zip upper_letters lower_letters) c of Some l \<Rightarrow> l | None \<Rightarrow> c)"

text \<open>
  \<^verbatim>\<open>strings.ToLower\<close> on ASCII input. The values of \<^verbatim>\<open>http.Request.Cookies()\<close> are
  printable ASCII (net/http drops any cookie whose value has another byte), where
  this is what the library computes.
\<close>

definition ToLower :: "string \<Rightarrow> string" where
  "ToLower s = map lower_char s"

text \<open>The ASCII white space of \<^verbatim>\<open>unicode.IsSpace\<close>: tab, line feed, vertical tab,
  form feed, carriage return and space.\<close>

definition is_space :: "char \<Rightarrow> bool" where
  "is_space c \<longleftrightarrow> of_char c \<in> {9, 10, 11, 12, 13, 32 :: nat}"

definition TrimSpace :: "string \<Rightarrow> string" where
  "TrimSpace s = rev (dropWhile is_space (rev (dropWhile is_space s)))"

text \<open>\<^verbatim>\<open>strings.Split(s, ",")\<close>: the fields between the separators, at least one.\<close>

fun split_on :: "char \<Rightarrow> string \<Rightarrow> string list" where
  "split_on sep [] = [[]]"
| "split_on sep (c # cs) =
     (if c = sep then [] # split_on sep cs
      else (case split_on sep cs of
              [] \<Rightarrow> [[c]]
            | f # fs \<Rightarrow> (c # f) # fs))"

subsection \<open>package strconv\<close>

datatype num_error = ErrSyntax | ErrRange

text \<open>
  \<^verbatim>\<open>strconv.ParseBool\<close> accepts exactly twelve spellings. The model returns the error
  (\<open>None\<close> is Go's \<^verbatim>\<open>nil\<close>); the parsed value is discarded by the caller.
\<close>

definition ParseBool :: "string \<Rightarrow> num_error option" where
  "ParseBool str =
     (if str \<in> set [''1'', ''t'', ''T'', ''true'', ''TRUE'', ''True''] then None
      else if str \<in> set [''0'', ''f'', ''F'', ''false'', ''FALSE'', ''False''] then None
      else Some ErrSyntax)"

definition is_digit :: "char \<Rightarrow> bool" where
  "is_digit c \<longleftrightarrow> c \<in> set ''0123456789''"

definition digit_val :: "char \<Rightarrow> int" where
  "digit_val c = of_char c - 48"

text \<open>\<^verbatim>\<open>'a' <= lower(c) && lower(c) <= 'f'\<close> with \<^verbatim>\<open>lower(c) = c | 0x20\<close>.\<close>

definition is_hex_letter :: "char \<Rightarrow> bool" where
  "is_hex_letter c \<longleftrightarrow> c \<in> set ''abcdefABCDEF''"

definition hex_letter_val :: "char \<Rightarrow> int" where
  "hex_letter_val c = of_char (lower_char c) - 97 + 10"

text \<open>\<^verbatim>\<open>lower(c) == expChar\<close>: \<open>e\<close> or \<open>E\<close> in a decimal number, \<open>p\<close> or \<open>P\<close> in a
  hexadecimal one.\<close>

definition is_exp_char :: "bool \<Rightarrow> char \<Rightarrow> bool" where
  "is_exp_char hex c \<longleftrightarrow> (if hex then c \<in> set ''pP'' else c \<in> set ''eE'')"

text \<open>\<^verbatim>\<open>commonPrefixLenIgnoreCase(s, prefix)\<close>, the prefix being lower case.\<close>

definition commonPrefixLenIgnoreCase :: "string \<Rightarrow> string \<Rightarrow> nat" where
  "commonPrefixLenIgnoreCase s prefix =
     length (takeWhile (\<lambda>(c, p). lower_char c = p) (zip s prefix))"

definition inf_len :: "string \<Rightarrow> nat \<Rightarrow> nat option" where
  "inf_len s nsign =
     (let n = commonPrefixLenIgnoreCase s ''infinity'';
          n' = (if 3 < n \<and> n < 8 then 3 else n)
      in if n' = 3 \<or> n' = 8 then Some (nsign + n') else None)"

text \<open>\<^verbatim>\<open>special\<close>: the number of bytes of a leading \<open>inf\<close>, \<open>infinity\<close> (signed or
  not) or \<open>nan\<close>, in any letter case.\<close>

definition special :: "string \<Rightarrow> nat option" where
  "special s =
     (case s of
        [] \<Rightarrow> None
      | c # cs \<Rightarrow>
          if c \<in> set ''+-'' then inf_len cs 1
          else if c \<in> set ''iI'' then inf_len s 0
          else if c \<in> set ''nN'' then
            (if commonPrefixLenIgnoreCase s ''nan'' = 3 then Some 3 else None)
          else None)"

text \<open>
  The digit loop of \<^verbatim>\<open>readFloat\<close>. The state is \<^verbatim>\<open>sawdot\<close>, \<^verbatim>\<open>sawdigits\<close>, \<^verbatim>\<open>nd\<close>,
  \<^verbatim>\<open>dp\<close>, \<^verbatim>\<open>mantissa\<close> and \<^verbatim>\<open>underscores\<close>; the result adds the unread rest of
  the string. The mantissa is kept exactly (the library keeps 19 digits and a
  truncation flag, from which its conversion still rounds the exact decimal).
\<close>

type_synonym scan = "bool \<times> bool \<times> int \<times> int \<times> int \<times> bool"

fun scan_digits :: "bool \<Rightarrow> scan \<Rightarrow> string \<Rightarrow> scan \<times> string" where
  "scan_digits hex st [] = (st, [])"
| "scan_digits hex (sawdot, sawdigits, nd, dp, mantissa, underscores) (c # cs) =
     (if c = CHR ''_'' then
        scan_digits hex (sawdot, sawdigits, nd, dp, mantissa, True) cs
      else if c = CHR ''.'' then
        (if sawdot then ((sawdot, sawdigits, nd, dp, mantissa, underscores), c # cs)
         else scan_digits hex (True, sawdigits, nd, nd, mantissa, underscores) cs)
      else if is_digit c then
        (if c = CHR ''0'' \<and> nd = 0 then
           scan_digits hex (sawdot, True, nd, dp - 1, mantissa, underscores) cs
         else
           scan_digits hex
             (sawdot, True, nd + 1, dp,
              mantissa * (if hex then 16 else 10) + digit_val c, underscores) cs)
      else if hex \<and> is_hex_letter c then
        scan_digits hex
          (sawdot, True, nd + 1, dp, mantissa * 16 + hex_letter_val c, underscores) cs
      else ((sawdot, sawdigits, nd, dp, mantissa, underscores), c # cs))"

text \<open>The exponent loop of \<^verbatim>\<open>readFloat\<close>: digits and underscores, the value capped
  once it has reached 10000.\<close>

fun scan_exp :: "int \<Rightarrow> bool \<Rightarrow> string \<Rightarrow> int \<times> bool \<times> string" where
  "scan_exp e underscores [] = (e, underscores, [])"
| "scan_exp e underscores (c # cs) =
     (if c = CHR ''_'' then scan_exp e True cs
      else if is_digit c then
        scan_exp (if e < 10000 then e * 10 + digit_val c else e) underscores cs
      else (e, underscores, c # cs))"

text \<open>\<^verbatim>\<open>underscoreOK\<close>: an underscore stands only between digits, or between a base
  prefix and a digit.\<close>

datatype saw = SawStart | SawDigit | SawUnderscore | SawOther

fun underscore_loop :: "bool \<Rightarrow> saw \<Rightarrow> string \<Rightarrow> bool" where
  "underscore_loop hex sw [] = (sw \<noteq> SawUnderscore)"
| "underscore_loop hex sw (c # cs) =
     (if is_digit c \<or> hex \<and> is_hex_letter c then underscore_loop hex SawDigit cs
      else if c = CHR ''_'' then
        (if sw \<noteq> SawDigit then False else underscore_loop hex SawUnderscore cs)
      else if sw = SawUnderscore then False
      else underscore_loop hex SawOther cs)"

definition underscoreOK :: "string \<Rightarrow> bool" where
  "underscoreOK s =
     (let s1 = (case s of [] \<Rightarrow> s | c # cs \<Rightarrow> if c \<in> set ''-+'' then cs else s)
      in case s1 of
           a # b # cs \<Rightarrow>
             if a = CHR ''0'' \<and> b \<in> set ''bBoOxX''
             then underscore_loop (b \<in> set ''xX'') SawDigit cs
             else underscore_loop False SawStart s1
         | _ \<Rightarrow> underscore_loop False SawStart s1)"

text \<open>
  \<^verbatim>\<open>readFloat\<close>: sign, optional \<open>0x\<close>, digits with at most one point, optional exponent.
  The result is (mantissa, exp, hex, unread rest), or \<open>None\<close> where the library
  returns \<^verbatim>\<open>ok = false\<close>. The magnitude read is mantissa * 10 ^ exp, or
  mantissa * 2 ^ exp for a hexadecimal one; the sign has no part in the error.
\<close>

definition finish_read ::
  "string \<Rightarrow> bool \<Rightarrow> int \<Rightarrow> int \<Rightarrow> int \<Rightarrow> bool \<Rightarrow> string \<Rightarrow> (int \<times> int \<times> bool \<times> string) option"
where
  "finish_read s hex nd mantissa dp underscores rest =
     (let ndMant = (if hex then nd * 4 else nd)
      in if underscores \<and> \<not> underscoreOK (take (length s - length rest) s) then None
         else Some (mantissa, if mantissa \<noteq> 0 then dp - ndMant else 0, hex, rest))"

definition read_exponent ::
  "string \<Rightarrow> bool \<Rightarrow> int \<Rightarrow> int \<Rightarrow> int \<Rightarrow> bool \<Rightarrow> string \<Rightarrow> (int \<times> int \<times> bool \<times> string) option"
where
  "read_exponent s hex nd dp mantissa underscores rest =
     (case rest of
        [] \<Rightarrow> if hex then None else finish_read s hex nd mantissa dp underscores rest
      | c # cs \<Rightarrow>
          if is_exp_char hex c then
            (let esign = (if cs \<noteq> [] \<and> hd cs = CHR ''-'' then - 1 else (1::int));
                 t = (if cs \<noteq> [] \<and> hd cs \<in> set ''+-'' then tl cs else cs)
             in if cs = [] \<or> t = [] \<or> \<not> is_digit (hd t) then None
                else (case scan_exp 0 underscores t of
                        (e, us, r) \<Rightarrow> finish_read s hex nd mantissa (dp + e * esign) us r))
          else if hex then None
          else finish_read s hex nd mantissa dp underscores rest)"

definition readFloat :: "string \<Rightarrow> (int \<times> int \<times> bool \<times> string) option" where
  "readFloat s =
     (case s of
        [] \<Rightarrow> None
      | c # cs \<Rightarrow>
          let s1 = (if c = CHR ''+'' \<or> c = CHR ''-'' then cs else s);
              hex = (case s1 of
                       a # b # _ # _ \<Rightarrow> a = CHR ''0'' \<and> b \<in> set ''xX''
                     | _ \<Rightarrow> False);
              s2 = (if hex then drop 2 s1 else s1)
          in case scan_digits hex (False, False, 0, 0, 0, False) s2 of
               ((sawdot, sawdigits, nd, dp, mantissa, underscores), rest) \<Rightarrow>
                 if \<not> sawdigits then None
                 else
                   let dp1 = (if sawdot then dp else nd);
                       dp2 = (if hex then dp1 * 4 else dp1)
                   in read_exponent s hex nd dp2 mantissa underscores rest)"

text \<open>
  The conversion rounds to the nearest float64, ties to even. The result is infinite,
  and the error \<^verbatim>\<open>ErrRange\<close>, from the midpoint between the largest float64 and
  2 ^ 1024 on. An underflow to zero is no error.
\<close>

definition float64_limit :: int where
  "float64_limit = 2 ^ 1024 - 2 ^ 970"

definition overflows :: "bool \<Rightarrow> int \<Rightarrow> int \<Rightarrow> bool" where
  "overflows hex mantissa exp =
     (let b = (if hex then 2 else 10 :: int)
      in if 0 \<le> exp then float64_limit \<le> mantissa * b ^ nat exp
         else float64_limit * b ^ nat (- exp) \<le> mantissa)"

text \<open>
  \<^verbatim>\<open>strconv.ParseFloat(s, 64)\<close>, as the error it returns (\<open>None\<close> is \<^verbatim>\<open>nil\<close>): a
  syntax error unless the whole string is read as a number, a range error when the
  number read overflows.
\<close>

definition ParseFloat :: "string \<Rightarrow> num_error option" where
  "ParseFloat s =
     (case special s of
        Some n \<Rightarrow> if n = length s then None else Some ErrSyntax
      | None \<Rightarrow>
          (case readFloat s of
             None \<Rightarrow> Some ErrSyntax
           | Some (mantissa, exp, hex, rest) \<Rightarrow>
               if rest \<noteq> [] then Some ErrSyntax
               else if overflows hex mantissa exp then Some ErrRange
               else None))"

subsection \<open>The data model\<close>

text \<open>
  \<^verbatim>\<open>base.Schema\<close> with the fields the validator reads: \<^verbatim>\<open>Type\<close> (the declared type
  tags, in order), \<^verbatim>\<open>Enum\<close> (\<open>None\<close> is a \<^verbatim>\<open>nil\<close> slice; the entries that are strings,
  since an entry of another dynamic type is never equal to a string) and \<^verbatim>\<open>Items\<close>
  (a pointer to a \<^verbatim>\<open>DynamicValue\<close>, \<open>None\<close> when the schema has no \<^verbatim>\<open>items\<close>). A
  \<^verbatim>\<open>DynamicValue\<close> holds a schema proxy (side A) or a boolean (side B); a
  \<^verbatim>\<open>SchemaProxy\<close> builds its schema on demand and yields \<^verbatim>\<open>nil\<close> when it cannot.
\<close>

datatype schema =
  MkSchema (Type: "string list") (Enum: "string list option") (Items: "dynamic_value option")
and dynamic_value =
  ItemsA schema_proxy | ItemsB bool
and schema_proxy =
  SchemaProxy (BuildSchema: "schema option")

text \<open>\<^verbatim>\<open>func (d *DynamicValue[A, B]) IsA() bool { return d.N == 0 }\<close>: side A is set.
  The method reads a field of its receiver, so a \<^verbatim>\<open>nil\<close> receiver is a panic (it is
  modelled where the method is called).\<close>

fun IsA :: "dynamic_value \<Rightarrow> bool" where
  "IsA (ItemsA _) = True"
| "IsA (ItemsB _) = False"

text \<open>\<^verbatim>\<open>v3.Parameter\<close>: \<^verbatim>\<open>Schema\<close> is a pointer to a proxy, \<^verbatim>\<open>Explode\<close> a pointer to
  a boolean.\<close>

record parameter =
  Name :: string
  In :: string
  Schema :: "schema_proxy option"
  Explode :: "bool option"

definition IsExploded :: "parameter \<Rightarrow> bool" where
  "IsExploded p = (case Explode p of None \<Rightarrow> False | Some b \<Rightarrow> b)"

text \<open>\<^verbatim>\<open>http.Cookie\<close> and \<^verbatim>\<open>http.Request\<close>, with \<^verbatim>\<open>Cookies()\<close> as a field.\<close>

record cookie =
  CookieName :: string
  CookieValue :: string

record request =
  Method :: string
  Path :: string
  Cookies :: "cookie list"

text \<open>
  \<^verbatim>\<open>errors.ValidationError\<close>. The constructors of package \<^verbatim>\<open>errors\<close> that the
  validator calls keep their names and arguments; \<open>IncorrectCookieParamArrayItem\<close> is
  the error of the array check and \<open>OtherValidationError\<close> stands for the errors
  that the path finder and the schema validator build.
\<close>

datatype validation_error =
    InvalidCookieParamNumber parameter string schema
  | IncorrectCookieParamBool parameter string schema
  | IncorrectCookieParamEnum parameter string schema
  | IncorrectCookieParamArrayItem parameter string schema
  | OtherValidationError string

text \<open>The constants of package \<^verbatim>\<open>helpers\<close>.\<close>

definition Cookie :: string where "Cookie = ''cookie''"
definition Integer :: string where "Integer = ''integer''"
definition Number :: string where "Number = ''number''"
definition Boolean :: string where "Boolean = ''boolean''"
definition Object :: string where "Object = ''object''"
definition Array :: string where "Array = ''array''"
definition String :: string where "String = ''string''"

text \<open>
  The functions of other packages that the validator calls are parameters of the
  model: \<^verbatim>\<open>paths.FindPath\<close> (path item and errors; \<open>None\<close> is \<^verbatim>\<open>nil\<close>, for the pointer
  and for the slice), \<^verbatim>\<open>helpers.ExtractParamsForOperation\<close>,
  \<^verbatim>\<open>helpers.ConstructMapFromCSV\<close>, \<^verbatim>\<open>schemas.ValidateParameterSchema\<close> (schema, decoded
  object and parameter name; its other arguments are constants) and
  \<^verbatim>\<open>ValidateCookieArray\<close>.
\<close>

record ('doc, 'item, 'obj) collaborators =
  FindPath :: "request \<Rightarrow> 'doc \<Rightarrow> 'item option \<times> validation_error list option"
  ExtractParamsForOperation :: "request \<Rightarrow> 'item \<Rightarrow> parameter list"
  ConstructMapFromCSV :: "string \<Rightarrow> 'obj"
  ValidateParameterSchema :: "schema \<Rightarrow> 'obj \<Rightarrow> string \<Rightarrow> validation_error list"
  ValidateCookieArray :: "schema \<Rightarrow> parameter \<Rightarrow> string \<Rightarrow> validation_error list"

record 'doc paramValidator =
  document :: 'doc
  errors :: "validation_error list option"

datatype panic = NilPointerDereference

text \<open>The elements of a slice; a \<^verbatim>\<open>nil\<close> slice has none.\<close>

definition elements :: "'a list option \<Rightarrow> 'a list" where
  "elements s = (case s of None \<Rightarrow> [] | Some xs \<Rightarrow> xs)"

subsection \<open>ValidateCookieParams\<close>

text \<open>
  One round of the \<^verbatim>\<open>switch\<close> (lines 44 to 101): the errors that one type tag
  appends for one cookie, or the panic. \<open>s\<close> is the schema that \<open>sch\<close> points to:
  the loop is entered after line 41 has read through \<open>sch\<close>, so the test
  \<^verbatim>\<open>sch != nil\<close> of line 61 holds. \<^verbatim>\<open>sch.Items.IsA()\<close> reads through \<^verbatim>\<open>sch.Items\<close>.
\<close>

definition check_type ::
  "('doc, 'item, 'obj) collaborators \<Rightarrow> parameter \<Rightarrow> cookie \<Rightarrow> schema \<Rightarrow> string
     \<Rightarrow> panic + validation_error list"
where
  "check_type env p c s ty =
     (if ty = Integer \<or> ty = Number then
        (if ParseFloat (CookieValue c) \<noteq> None
         then Inr [InvalidCookieParamNumber p (ToLower (CookieValue c)) s]
         else Inr [])
      else if ty = Boolean then
        (if ParseBool (CookieValue c) \<noteq> None
         then Inr [IncorrectCookieParamBool p (ToLower (CookieValue c)) s]
         else Inr [])
      else if ty = Object then
        (if \<not> IsExploded p
         then Inr (ValidateParameterSchema env s
                     (ConstructMapFromCSV env (CookieValue c)) (Name p))
         else Inr [])
      else if ty = Array then
        (if \<not> IsExploded p then
           (case Items s of
              None \<Rightarrow> Inl NilPointerDereference
            | Some d \<Rightarrow>
                if IsA d then Inr (ValidateCookieArray env s p (CookieValue c))
                else Inr [])
         else Inr [])
      else if ty = String then
        (case Enum s of
           None \<Rightarrow> Inr []
         | Some enum \<Rightarrow>
             if list_ex (\<lambda>enumVal. TrimSpace (CookieValue c) = enumVal) enum then Inr []
             else Inr [IncorrectCookieParamEnum p (ToLower (CookieValue c)) s])
      else Inr [])"

text \<open>The loop over \<^verbatim>\<open>pType\<close> (line 43), appending to \<^verbatim>\<open>validationErrors\<close>.\<close>

fun check_types ::
  "('doc, 'item, 'obj) collaborators \<Rightarrow> parameter \<Rightarrow> cookie \<Rightarrow> schema \<Rightarrow> string list
     \<Rightarrow> validation_error list \<Rightarrow> panic + validation_error list"
where
  "check_types env p c s [] validationErrors = Inr validationErrors"
| "check_types env p c s (ty # tys) validationErrors =
     (case check_type env p c s ty of
        Inl e \<Rightarrow> Inl e
      | Inr es \<Rightarrow> check_types env p c s tys (validationErrors @ es))"

text \<open>
  The body of the cookie loop (lines 35 to 103). Line 41, \<^verbatim>\<open>pType := sch.Type\<close>, reads
  a field through \<open>sch\<close> and panics when \<open>sch\<close> is \<^verbatim>\<open>nil\<close>.
\<close>

definition check_cookie ::
  "('doc, 'item, 'obj) collaborators \<Rightarrow> parameter \<Rightarrow> cookie \<Rightarrow> validation_error list
     \<Rightarrow> panic + validation_error list"
where
  "check_cookie env p c validationErrors =
     (if CookieName c = Name p then
        (let sch = (case Schema p of None \<Rightarrow> None | Some proxy \<Rightarrow> BuildSchema proxy)
         in case sch of
              None \<Rightarrow> Inl NilPointerDereference
            | Some s \<Rightarrow> check_types env p c s (Type s) validationErrors)
      else Inr validationErrors)"

fun check_cookies ::
  "('doc, 'item, 'obj) collaborators \<Rightarrow> parameter \<Rightarrow> cookie list \<Rightarrow> validation_error list
     \<Rightarrow> panic + validation_error list"
where
  "check_cookies env p [] validationErrors = Inr validationErrors"
| "check_cookies env p (c # cs) validationErrors =
     (case check_cookie env p c validationErrors of
        Inl e \<Rightarrow> Inl e
      | Inr es \<Rightarrow> check_cookies env p cs es)"

text \<open>The loop over \<^verbatim>\<open>params\<close> (lines 32 to 106).\<close>

fun check_params ::
  "('doc, 'item, 'obj) collaborators \<Rightarrow> cookie list \<Rightarrow> parameter list \<Rightarrow> validation_error list
     \<Rightarrow> panic + validation_error list"
where
  "check_params env cs [] validationErrors = Inr validationErrors"
| "check_params env cs (p # ps) validationErrors =
     (if In p = Cookie then
        (case check_cookies env p cs validationErrors of
           Inl e \<Rightarrow> Inl e
         | Inr es \<Rightarrow> check_params env cs ps es)
      else check_params env cs ps validationErrors)"

text \<open>
  The method: the validator after the call, and the panic or the pair that is
  returned (the slice as its elements).
\<close>

definition ValidateCookieParams ::
  "('doc, 'item, 'obj) collaborators \<Rightarrow> 'doc paramValidator \<Rightarrow> request
     \<Rightarrow> 'doc paramValidator \<times> (panic + bool \<times> validation_error list)"
where
  "ValidateCookieParams env v request =
     (case FindPath env request (document v) of
        (pathItem, errs) \<Rightarrow>
          (case pathItem of
             None \<Rightarrow> (v\<lparr>errors := errs\<rparr>, Inr (False, elements errs))
           | Some item \<Rightarrow>
               if errs \<noteq> None then (v\<lparr>errors := errs\<rparr>, Inr (False, elements errs))
               else
                 (case check_params env (Cookies request)
                         (ExtractParamsForOperation env request item) [] of
                    Inl e \<Rightarrow> (v, Inl e)
                  | Inr validationErrors \<Rightarrow>
                      if length validationErrors > 0 then (v, Inr (False, validationErrors))
                      else (v, Inr (True, [])))))"

subsection \<open>The patterns of the specification\<close>

text \<open>
  The pattern \<^verbatim>\<open>^-?\d+(\.\d+)?([eE][-+]?\d+)?$\<close> on the whole string: an optional
  minus sign, one or more digits, optionally a point with one or more digits, optionally
  an exponent letter with an optional sign and one or more digits.
\<close>

definition unsigned :: "string \<Rightarrow> string" where
  "unsigned s = (case s of [] \<Rightarrow> [] | c # cs \<Rightarrow> if c = CHR ''-'' then cs else s)"

text \<open>The text after an optional fraction, a point with one or more digits.\<close>

definition after_fraction :: "string \<Rightarrow> string" where
  "after_fraction r =
     (case r of
        [] \<Rightarrow> []
      | c # cs \<Rightarrow>
          if c = CHR ''.'' \<and> takeWhile is_digit cs \<noteq> [] then dropWhile is_digit cs else r)"

text \<open>The text after the first character and an optional sign: the digits of an
  exponent, when the first character is the exponent letter.\<close>

definition exponent_digits :: "string \<Rightarrow> string" where
  "exponent_digits r =
     (case r of
        [] \<Rightarrow> []
      | c # cs \<Rightarrow> (case cs of [] \<Rightarrow> [] | d # ds \<Rightarrow> if d \<in> set ''-+'' then ds else cs))"

definition num_pattern :: "string \<Rightarrow> bool" where
  "num_pattern s =
     (let s1 = unsigned s;
          r = after_fraction (dropWhile is_digit s1)
      in takeWhile is_digit s1 \<noteq> [] \<and>
         (r = [] \<or>
          hd r \<in> set ''eE'' \<and> exponent_digits r \<noteq> [] \<and> list_all is_digit (exponent_digits r)))"

text \<open>
  The same pattern by its parts, for the proofs: sign, integer digits, fraction and
  exponent.
\<close>

definition fraction_part :: "string \<Rightarrow> bool" where
  "fraction_part fr \<longleftrightarrow>
     fr = [] \<or> (\<exists>fp. fr = CHR ''.'' # fp \<and> fp \<noteq> [] \<and> list_all is_digit fp)"

definition exponent_part :: "string \<Rightarrow> bool" where
  "exponent_part ex \<longleftrightarrow>
     ex = [] \<or>
     (\<exists>e sn ds. ex = e # sn @ ds \<and> e \<in> set ''eE'' \<and> (sn = [] \<or> sn = ''+'' \<or> sn = ''-'')
        \<and> ds \<noteq> [] \<and> list_all is_digit ds)"

definition number_shape :: "string \<Rightarrow> bool" where
  "number_shape s \<longleftrightarrow>
     (\<exists>sg ip fr ex. s = sg @ ip @ fr @ ex \<and> (sg = [] \<or> sg = ''-'') \<and> ip \<noteq> []
        \<and> list_all is_digit ip \<and> fraction_part fr \<and> exponent_part ex)"

text \<open>The boolean spellings of the specification, compared without regard to letter
  case.\<close>

definition bool_spelling :: "string \<Rightarrow> bool" where
  "bool_spelling s \<longleftrightarrow> ToLower s \<in> set [''true'', ''false'', ''1'', ''0'', ''t'', ''f'']"

text \<open>
  Modelled from the spec: \<^verbatim>\<open>ValidateCookieArray\<close>, which is defined in another file
  of package \<^verbatim>\<open>parameters\<close>. Section 4.3: the raw value is decomposed into its
  comma-separated items and each item is checked against the nested item schema, with
  the checks of the same engine (numeric, boolean, enum membership and, for a nested
  array, the item check again; an object is left to the structural validator); any
  item that fails contributes one array item error.
\<close>

fun item_fails :: "schema \<Rightarrow> string \<Rightarrow> bool" where
  "item_fails (MkSchema tys enum its) item =
     list_ex (\<lambda>ty.
        if ty = Integer \<or> ty = Number then ParseFloat item \<noteq> None
        else if ty = Boolean then ParseBool item \<noteq> None
        else if ty = String then
          (case enum of None \<Rightarrow> False | Some vs \<Rightarrow> \<not> list_ex (\<lambda>v. TrimSpace item = v) vs)
        else if ty = Array then
          (case its of
             Some (ItemsA (SchemaProxy (Some nested))) \<Rightarrow>
               list_ex (item_fails nested) (split_on CHR '','' item)
           | _ \<Rightarrow> False)
        else False) tys"

definition ValidateCookieArray_spec :: "schema \<Rightarrow> parameter \<Rightarrow> string \<Rightarrow> validation_error list" where
  "ValidateCookieArray_spec sch p v =
     (case Items sch of
        Some (ItemsA (SchemaProxy (Some itemsSchema))) \<Rightarrow>
          concat (map (\<lambda>item.
                    if item_fails itemsSchema item
                    then [IncorrectCookieParamArrayItem p item sch] else [])
                  (split_on CHR '','' v))
      | _ \<Rightarrow> [])"

text \<open>
  Modelled from the spec: the contract of the path finder \<^verbatim>\<open>paths.FindPath\<close>, which is
  defined in package \<^verbatim>\<open>paths\<close>. Section 6: \<^verbatim>\<open>resolve(request) -> (operationParameters,
  error?)\<close>; a resolution that fails reports its errors. A result counts as failed the
  way line 24 tests it: no path item, or an error slice that is not \<^verbatim>\<open>nil\<close>.
\<close>

definition resolution_failed :: "'item option \<times> validation_error list option \<Rightarrow> bool" where
  "resolution_failed r \<longleftrightarrow> fst r = None \<or> snd r \<noteq> None"

definition reports_failure :: "'item option \<times> validation_error list option \<Rightarrow> bool" where
  "reports_failure r \<longleftrightarrow> (if resolution_failed r then elements (snd r) \<noteq> [] else True)"

subsection \<open>What the loops collect\<close>

text \<open>
  The notions in which the results are stated: the schema that lines 37 to 40 extract,
  the errors that one type tag appends (none when the round panics), the errors of one
  cookie over the declared type tags in order, the cookies that carry the name of a
  parameter, and the errors of all cookie parameters in order. A cookie parameter is
  well formed when it has a schema and, where the array check runs, an \<^verbatim>\<open>items\<close>
  entry: the pointers that the code reads through are then not \<^verbatim>\<open>nil\<close>.
\<close>

definition declared_schema :: "parameter \<Rightarrow> schema option" where
  "declared_schema p = (case Schema p of None \<Rightarrow> None | Some proxy \<Rightarrow> BuildSchema proxy)"

definition type_errors ::
  "('doc, 'item, 'obj) collaborators \<Rightarrow> parameter \<Rightarrow> cookie \<Rightarrow> schema \<Rightarrow> string \<Rightarrow> validation_error list"
where
  "type_errors env p c s ty = (case check_type env p c s ty of Inl e \<Rightarrow> [] | Inr es \<Rightarrow> es)"

definition cookie_errors ::
  "('doc, 'item, 'obj) collaborators \<Rightarrow> parameter \<Rightarrow> cookie \<Rightarrow> validation_error list"
where
  "cookie_errors env p c =
     (case declared_schema p of
        None \<Rightarrow> []
      | Some s \<Rightarrow> concat (map (type_errors env p c s) (Type s)))"

definition well_formed :: "parameter \<Rightarrow> bool" where
  "well_formed p =
     (case declared_schema p of
        None \<Rightarrow> False
      | Some s \<Rightarrow> IsExploded p \<or> Array \<notin> set (Type s) \<or> Items s \<noteq> None)"

definition named :: "parameter \<Rightarrow> cookie list \<Rightarrow> cookie list" where
  "named p cs = filter (\<lambda>c. CookieName c = Name p) cs"

definition all_errors ::
  "('doc, 'item, 'obj) collaborators \<Rightarrow> cookie list \<Rightarrow> parameter list \<Rightarrow> validation_error list"
where
  "all_errors env cs ps =
     concat (map (\<lambda>p. concat (map (cookie_errors env p) (named p cs)))
               (filter (\<lambda>p. In p = Cookie) ps))"

subsection \<open>An operation to run the validator on\<close>

text \<open>
  A document that is the list of the parameters of its one operation, at every path but
  \<open>/missing\<close>; the object validator accepts everything.
\<close>

definition simple_env :: "(parameter list, parameter list, string) collaborators" where
  "simple_env =
     \<lparr> FindPath = (\<lambda>request doc.
          if Path request = ''/missing''
          then (None, Some [OtherValidationError ''GET Path /missing not found''])
          else (Some doc, None)),
       ExtractParamsForOperation = (\<lambda>request item. item),
       ConstructMapFromCSV = (\<lambda>csv. csv),
       ValidateParameterSchema = (\<lambda>sch obj name. []),
       ValidateCookieArray = ValidateCookieArray_spec \<rparr>"

definition cookie_param :: "string \<Rightarrow> schema_proxy option \<Rightarrow> parameter" where
  "cookie_param n px = \<lparr> Name = n, In = Cookie, Schema = px, Explode = None \<rparr>"

definition typed :: "string list \<Rightarrow> schema" where
  "typed tys = MkSchema tys None None"

definition get_request :: "string \<Rightarrow> (string \<times> string) list \<Rightarrow> request" where
  "get_request path cs =
     \<lparr> Method = ''GET'', Path = path,
       Cookies = map (\<lambda>(n, v). \<lparr> CookieName = n, CookieValue = v \<rparr>) cs \<rparr>"

definition validator :: "parameter list \<Rightarrow> parameter list paramValidator" where
  "validator ps = \<lparr> document = ps, errors = None \<rparr>"

definition declared :: "string \<Rightarrow> schema \<Rightarrow> parameter" where
  "declared n s = cookie_param n (Some (SchemaProxy (Some s)))"

definition array_of :: "schema \<Rightarrow> schema" where
  "array_of items = MkSchema [Array] None (Some (ItemsA (SchemaProxy (Some items))))"

definition colours :: schema where
  "colours = MkSchema [String] (Some [''red'', ''green'', ''blue'']) None"


section \<open>Properties of the loops\<close>

lemma tags_distinct:
  "Integer \<noteq> Number" "Integer \<noteq> Boolean" "Integer \<noteq> Object" "Integer \<noteq> Array"
  "Integer \<noteq> String" "Number \<noteq> Integer" "Number \<noteq> Boolean" "Number \<noteq> Object"
  "Number \<noteq> Array" "Number \<noteq> String" "Boolean \<noteq> Integer" "Boolean \<noteq> Number"
  "Boolean \<noteq> Object" "Boolean \<noteq> Array" "Boolean \<noteq> String" "Object \<noteq> Integer"
  "Object \<noteq> Number" "Object \<noteq> Boolean" "Object \<noteq> Array" "Object \<noteq> String"
  "Array \<noteq> Integer" "Array \<noteq> Number" "Array \<noteq> Boolean" "Array \<noteq> Object"
  "Array \<noteq> String" "String \<noteq> Integer" "String \<noteq> Number" "String \<noteq> Boolean"
  "String \<noteq> Object" "String \<noteq> Array"
  by (simp_all add: Integer_def Number_def Boolean_def Object_def Array_def String_def)

lemma check_type_panics:
  "check_type env p c s ty = Inl e \<longleftrightarrow> ty = Array \<and> \<not> IsExploded p \<and> Items s = None"
  by (cases e) (auto simp: check_type_def tags_distinct split: option.splits)

lemma check_type_returns:
  "IsExploded p \<or> ty \<noteq> Array \<or> Items s \<noteq> None \<Longrightarrow>
   check_type env p c s ty = Inr (type_errors env p c s ty)"
  by (cases "check_type env p c s ty") (auto simp: type_errors_def check_type_panics)

lemma check_types_returns:
  "IsExploded p \<or> Array \<notin> set tys \<or> Items s \<noteq> None \<Longrightarrow>
   check_types env p c s tys acc = Inr (acc @ concat (map (type_errors env p c s) tys))"
proof (induction tys arbitrary: acc)
  case Nil
  show ?case by simp
next
  case (Cons ty tys)
  from Cons.prems have here: "IsExploded p \<or> ty \<noteq> Array \<or> Items s \<noteq> None" by auto
  from Cons.prems have rest: "IsExploded p \<or> Array \<notin> set tys \<or> Items s \<noteq> None" by auto
  show ?case
    by (simp add: check_type_returns [OF here] Cons.IH [OF rest])
qed

lemma check_cookie_other_name:
  "CookieName c \<noteq> Name p \<Longrightarrow> check_cookie env p c acc = Inr acc"
  by (simp add: check_cookie_def)

lemma check_cookie_absent_schema:
  "CookieName c = Name p \<Longrightarrow> declared_schema p = None \<Longrightarrow>
   check_cookie env p c acc = Inl NilPointerDereference"
  by (simp add: check_cookie_def declared_schema_def)

lemma check_cookie_returns:
  assumes "well_formed p"
  shows "check_cookie env p c acc =
         Inr (acc @ (if CookieName c = Name p then cookie_errors env p c else []))"
proof -
  from assms obtain s where s: "declared_schema p = Some s"
    and ok: "IsExploded p \<or> Array \<notin> set (Type s) \<or> Items s \<noteq> None"
    by (auto simp: well_formed_def split: option.splits)
  from s have sch: "(case Schema p of None \<Rightarrow> None | Some proxy \<Rightarrow> BuildSchema proxy) = Some s"
    by (simp add: declared_schema_def)
  show ?thesis
    by (simp add: check_cookie_def sch cookie_errors_def s check_types_returns [OF ok])
qed

lemma check_cookies_returns:
  assumes "well_formed p"
  shows "check_cookies env p cs acc = Inr (acc @ concat (map (cookie_errors env p) (named p cs)))"
  by (induction cs arbitrary: acc) (simp_all add: check_cookie_returns [OF assms] named_def)

lemma check_params_returns:
  "list_all well_formed (filter (\<lambda>p. In p = Cookie) ps) \<Longrightarrow>
   check_params env cs ps acc = Inr (acc @ all_errors env cs ps)"
  by (induction ps arbitrary: acc) (auto simp: check_cookies_returns all_errors_def)

lemma check_cookies_unnamed:
  "named p cs = [] \<Longrightarrow> check_cookies env p cs acc = Inr acc"
  by (induction cs arbitrary: acc) (auto simp: named_def check_cookie_other_name split: if_splits)

lemma check_params_unnamed:
  "list_all (\<lambda>p. named p cs = []) (filter (\<lambda>p. In p = Cookie) ps) \<Longrightarrow>
   check_params env cs ps acc = Inr acc"
  by (induction ps arbitrary: acc) (auto simp: check_cookies_unnamed)

lemma resolved_returns:
  assumes "FindPath env request (document v) = (Some item, None)"
    and "check_params env (Cookies request) (ExtractParamsForOperation env request item) [] = Inr es"
  shows "ValidateCookieParams env v request = (v, Inr (es = [], es))"
  using assms by (simp add: ValidateCookieParams_def)

lemma failed_returns:
  assumes "resolution_failed (FindPath env request (document v))"
  shows "ValidateCookieParams env v request =
         (v\<lparr>errors := snd (FindPath env request (document v))\<rparr>,
          Inr (False, elements (snd (FindPath env request (document v)))))"
  using assms
  by (cases "FindPath env request (document v)")
     (auto simp: ValidateCookieParams_def resolution_failed_def split: option.splits)

lemma not_failed:
  "\<not> resolution_failed r \<longleftrightarrow> (\<exists>item. r = (Some item, None))"
  by (cases r) (auto simp: resolution_failed_def)

lemma scalar_tag_errors:
  assumes "ty \<in> {Integer, Number, Boolean, String}"
  shows "length (type_errors env p c s ty) \<le> 1"
  using assms
  by (auto simp: type_errors_def check_type_def tags_distinct split: option.splits)

lemma numeric_tag:
  "ty = Integer \<or> ty = Number \<Longrightarrow>
   check_type env p c s ty =
     (if ParseFloat (CookieValue c) \<noteq> None
      then Inr [InvalidCookieParamNumber p (ToLower (CookieValue c)) s] else Inr [])"
  by (auto simp: check_type_def)

lemma array_check_skipped:
  "IsExploded p \<or> (\<exists>b. Items s = Some (ItemsB b)) \<Longrightarrow> check_type env p c s Array = Inr []"
  by (auto simp: check_type_def tags_distinct)

section \<open>Numbers of the pattern are read by ParseFloat\<close>

lemma is_digit_not_special:
  "is_digit c \<Longrightarrow> c \<noteq> CHR ''_'' \<and> c \<noteq> CHR ''.'' \<and> c \<noteq> CHR ''+'' \<and> c \<noteq> CHR ''-''
     \<and> c \<notin> set ''xX'' \<and> c \<notin> set ''eE'' \<and> c \<notin> set ''iI'' \<and> c \<notin> set ''nN''"
  by (auto simp: is_digit_def)

lemma exp_letter_not_digit:
  "c \<in> set ''eE'' \<Longrightarrow> \<not> is_digit c \<and> c \<noteq> CHR ''_'' \<and> c \<noteq> CHR ''.'' \<and> c \<notin> set ''xX''"
  by (auto simp: is_digit_def)

lemma scan_digits_block:
  "list_all is_digit ds \<Longrightarrow>
   \<exists>nd' dp' m'. scan_digits False (sd, sg, nd, dp, m, us) (ds @ r)
                = scan_digits False (sd, sg \<or> ds \<noteq> [], nd', dp', m', us) r"
proof (induction ds arbitrary: sg nd dp m)
  case Nil
  show ?case by auto
next
  case (Cons c ds)
  from Cons.prems have c: "is_digit c" and ds: "list_all is_digit ds" by simp_all
  note n = is_digit_not_special [OF c]
  show ?case
  proof (cases "c = CHR ''0'' \<and> nd = 0")
    case True
    from Cons.IH [OF ds, of True nd "dp - 1" m] True c n show ?thesis by auto
  next
    case False
    from Cons.IH [OF ds, of True "nd + 1" dp "m * 10 + digit_val c"] False c n
    show ?thesis by auto
  qed
qed

lemma scan_exp_block:
  "list_all is_digit ds \<Longrightarrow> \<exists>e'. scan_exp e us ds = (e', us, [])"
proof (induction ds arbitrary: e)
  case Nil
  show ?case by simp
next
  case (Cons c ds)
  from Cons.prems have c: "is_digit c" and ds: "list_all is_digit ds" by simp_all
  from Cons.IH [OF ds] c is_digit_not_special [OF c] show ?case by simp
qed

lemma scan_digits_stops:
  "exponent_part ex \<Longrightarrow> scan_digits False (sd, sg, nd, dp, m, us) ex = ((sd, sg, nd, dp, m, us), ex)"
  unfolding exponent_part_def
  by (elim disjE exE conjE) (use exp_letter_not_digit in \<open>simp_all\<close>)

lemma read_exponent_ok:
  assumes "exponent_part ex"
  shows "\<exists>e. read_exponent s False nd dp m False ex = Some (m, e, False, [])"
proof (cases "ex = []")
  case True
  then show ?thesis by (simp add: read_exponent_def finish_read_def)
next
  case False
  with assms obtain e sn ds where ex: "ex = e # sn @ ds" and e: "e \<in> set ''eE''"
    and sn: "sn = [] \<or> sn = ''+'' \<or> sn = ''-''" and ds: "ds \<noteq> []" "list_all is_digit ds"
    by (auto simp: exponent_part_def)
  from ds obtain d ds' where d: "ds = d # ds'" "is_digit d" by (cases ds) auto
  from scan_exp_block [OF ds(2), of 0 False] obtain e' where
    se: "scan_exp 0 False ds = (e', False, [])" by blast
  from e have ec: "is_exp_char False e" by (simp add: is_exp_char_def)
  from sn show ?thesis
  proof (elim disjE)
    assume "sn = []"
    with ex ec d se is_digit_not_special [OF d(2)] show ?thesis
      by (simp add: read_exponent_def finish_read_def)
  next
    assume "sn = ''+''"
    with ex ec d se show ?thesis
      by (simp add: read_exponent_def finish_read_def)
  next
    assume "sn = ''-''"
    with ex ec d se show ?thesis
      by (simp add: read_exponent_def finish_read_def)
  qed
qed


lemma exponent_part_intro:
  assumes "r = [] \<or> hd r \<in> set ''eE'' \<and> exponent_digits r \<noteq> [] \<and> list_all is_digit (exponent_digits r)"
  shows "exponent_part r"
proof (cases r)
  case Nil
  then show ?thesis by (simp add: exponent_part_def)
next
  case (Cons e cs)
  with assms have e: "e \<in> set ''eE''" and nz: "exponent_digits r \<noteq> []"
    and dg: "list_all is_digit (exponent_digits r)" by auto
  from nz Cons obtain d ds where cs: "cs = d # ds" by (cases cs) (auto simp: exponent_digits_def)
  show ?thesis
  proof (cases "d \<in> set ''-+''")
    case True
    with Cons cs nz dg e have "r = e # [d] @ ds" "ds \<noteq> []" "list_all is_digit ds"
      by (auto simp: exponent_digits_def)
    with True e show ?thesis unfolding exponent_part_def
      by (intro disjI2 exI [of _ e] exI [of _ "[d]"] exI [of _ ds]) auto
  next
    case False
    with Cons cs nz dg e have "r = e # [] @ cs" "cs \<noteq> []" "list_all is_digit cs"
      by (auto simp: exponent_digits_def)
    with e show ?thesis unfolding exponent_part_def by blast
  qed
qed

lemma after_fraction_split:
  "\<exists>fr. r1 = fr @ after_fraction r1 \<and> fraction_part fr"
proof (cases r1)
  case Nil
  then show ?thesis by (simp add: after_fraction_def fraction_part_def)
next
  case (Cons c cs)
  show ?thesis
  proof (cases "c = CHR ''.'' \<and> takeWhile is_digit cs \<noteq> []")
    case True
    have "list_all is_digit (takeWhile is_digit cs)"
      by (simp add: list_all_iff) (meson set_takeWhileD)
    with True Cons have "r1 = (CHR ''.'' # takeWhile is_digit cs) @ after_fraction r1"
      "fraction_part (CHR ''.'' # takeWhile is_digit cs)"
      by (simp_all add: after_fraction_def fraction_part_def)
    then show ?thesis by blast
  next
    case False
    with Cons have "r1 = [] @ after_fraction r1" "fraction_part []"
      by (auto simp: after_fraction_def fraction_part_def)
    then show ?thesis by blast
  qed
qed

lemma num_pattern_shape:
  assumes "num_pattern s"
  shows "number_shape s"
proof -
  define s1 where "s1 = unsigned s"
  define ip where "ip = takeWhile is_digit s1"
  define r1 where "r1 = dropWhile is_digit s1"
  from assms have ip: "ip \<noteq> []"
    and r: "after_fraction r1 = [] \<or>
            hd (after_fraction r1) \<in> set ''eE'' \<and> exponent_digits (after_fraction r1) \<noteq> [] \<and>
            list_all is_digit (exponent_digits (after_fraction r1))"
    by (simp_all add: num_pattern_def Let_def s1_def ip_def r1_def)
  have dig: "list_all is_digit ip"
    unfolding ip_def by (simp add: list_all_iff) (meson set_takeWhileD)
  have s1: "s1 = ip @ r1" by (simp add: ip_def r1_def)
  obtain sg where sg: "s = sg @ s1" "sg = [] \<or> sg = ''-''"
  proof (cases "s \<noteq> [] \<and> hd s = CHR ''-''")
    case True
    then have "s = ''-'' @ s1" by (cases s) (auto simp: s1_def unsigned_def)
    then show ?thesis using that by blast
  next
    case False
    then have "s = [] @ s1" by (cases s) (auto simp: s1_def unsigned_def)
    then show ?thesis using that by blast
  qed
  from after_fraction_split [of r1] obtain fr where
    fr: "r1 = fr @ after_fraction r1" "fraction_part fr" by blast
  from sg(1) s1 fr(1) have "s = sg @ ip @ fr @ after_fraction r1" by simp
  with sg(2) ip dig fr(2) exponent_part_intro [OF r] show ?thesis
    unfolding number_shape_def by blast
qed

lemma no_hex_prefix:
  assumes "ip \<noteq> []" "list_all is_digit ip" "fraction_part fr" "exponent_part ex"
  shows "(case ip @ fr @ ex of a # b # _ # _ \<Rightarrow> a = CHR ''0'' \<and> b \<in> set ''xX'' | _ \<Rightarrow> False) = False"
proof -
  from assms(1,2) obtain d ip' where ip: "ip = d # ip'" "list_all is_digit ip'" by (cases ip) auto
  show ?thesis
  proof (cases ip')
    case (Cons b t)
    with ip have "is_digit b" by simp
    from is_digit_not_special [OF this] ip Cons show ?thesis by (auto split: list.splits)
  next
    case Nil
    show ?thesis
    proof (cases fr)
      case (Cons b t)
      with assms(3) have "b = CHR ''.''" by (auto simp: fraction_part_def)
      with ip Nil Cons show ?thesis by (auto split: list.splits)
    next
      case fr: Nil
      show ?thesis
      proof (cases ex)
        case (Cons b t)
        with assms(4) have "b \<in> set ''eE''" by (auto simp: exponent_part_def)
        from exp_letter_not_digit [OF this] ip Nil fr Cons show ?thesis by (auto split: list.splits)
      next
        case ex: Nil
        with ip Nil fr show ?thesis by simp
      qed
    qed
  qed
qed

lemma scan_number:
  assumes "ip \<noteq> []" "list_all is_digit ip" "fraction_part fr" "exponent_part ex"
  shows "\<exists>sd nd dp m. scan_digits False (False, False, 0, 0, 0, False) (ip @ fr @ ex)
                      = ((sd, True, nd, dp, m, False), ex)"
proof -
  from scan_digits_block [OF assms(2), of False False 0 0 0 False "fr @ ex"] assms(1)
  obtain nd dp m where
    one: "scan_digits False (False, False, 0, 0, 0, False) (ip @ fr @ ex)
          = scan_digits False (False, True, nd, dp, m, False) (fr @ ex)" by auto
  show ?thesis
  proof (cases "fr = []")
    case True
    with one scan_digits_stops [OF assms(4)] show ?thesis by auto
  next
    case False
    with assms(3) obtain fp where fp: "fr = CHR ''.'' # fp" "list_all is_digit fp"
      by (auto simp: fraction_part_def)
    from scan_digits_block [OF fp(2), of True True nd nd m False ex]
    obtain nd' dp' m' where
      two: "scan_digits False (True, True, nd, nd, m, False) (fp @ ex)
            = scan_digits False (True, True, nd', dp', m', False) ex" by auto
    from one fp two scan_digits_stops [OF assms(4)] show ?thesis by auto
  qed
qed

lemma readFloat_number:
  assumes "number_shape s"
  shows "\<exists>m e. readFloat s = Some (m, e, False, [])"
proof -
  from assms obtain sg ip fr ex where s: "s = sg @ ip @ fr @ ex" and sg: "sg = [] \<or> sg = ''-''"
    and ip: "ip \<noteq> []" "list_all is_digit ip" and fr: "fraction_part fr" and ex: "exponent_part ex"
    by (auto simp: number_shape_def)
  from ip obtain d ip' where d: "ip = d # ip'" "is_digit d" by (cases ip) auto
  note nd = is_digit_not_special [OF d(2)]
  note hex = no_hex_prefix [OF ip fr ex]
  from scan_number [OF ip fr ex] obtain sd nd dp m where
    sc: "scan_digits False (False, False, 0, 0, 0, False) (ip @ fr @ ex)
         = ((sd, True, nd, dp, m, False), ex)" by blast
  from read_exponent_ok [OF ex] obtain e where
    re: "read_exponent s False nd (if sd then dp else nd) m False ex = Some (m, e, False, [])"
    by blast
  from sg show ?thesis
  proof
    assume "sg = []"
    with s d have "s = d # ip' @ fr @ ex" by simp
    with nd hex sc re d(1) show ?thesis
      by (simp add: readFloat_def Let_def)
  next
    assume "sg = ''-''"
    with s have "s = CHR ''-'' # ip @ fr @ ex" by simp
    with hex sc re show ?thesis
      by (simp add: readFloat_def Let_def)
  qed
qed

lemma special_number:
  assumes "number_shape s"
  shows "special s = None"
proof -
  from assms obtain sg ip r where s: "s = sg @ ip @ r" and sg: "sg = [] \<or> sg = ''-''"
    and ip: "ip \<noteq> []" "list_all is_digit ip"
    by (auto simp: number_shape_def)
  from ip obtain d ip' where d: "ip = d # ip'" "is_digit d" by (cases ip) auto
  note nd = is_digit_not_special [OF d(2)]
  from d(2) have low: "lower_char d \<noteq> CHR ''i''"
    by (auto simp: is_digit_def lower_char_def upper_letters_def lower_letters_def)
  from sg show ?thesis
  proof
    assume "sg = []"
    with s d nd show ?thesis by (simp add: special_def)
  next
    assume "sg = ''-''"
    with s d low show ?thesis
      by (simp add: special_def inf_len_def commonPrefixLenIgnoreCase_def)
  qed
qed

lemma ParseFloat_number:
  assumes "num_pattern s"
  shows "ParseFloat s \<noteq> Some ErrSyntax"
proof -
  from assms have sh: "number_shape s" by (rule num_pattern_shape)
  from readFloat_number [OF sh] obtain m e where "readFloat s = Some (m, e, False, [])" by blast
  with special_number [OF sh] show ?thesis by (simp add: ParseFloat_def)
qed

lemma digits_then_other:
  assumes "list_all is_digit ds" and "r = [] \<or> \<not> is_digit (hd r)"
  shows "takeWhile is_digit (ds @ r) = ds" and "dropWhile is_digit (ds @ r) = r"
proof -
  from assms(2) have t: "takeWhile is_digit r = []" and d: "dropWhile is_digit r = r"
    by (cases r; auto)+
  from assms(1) have all: "\<And>x. x \<in> set ds \<Longrightarrow> is_digit x" by (simp add: list_all_iff)
  show "takeWhile is_digit (ds @ r) = ds" by (simp add: takeWhile_append2 [OF all] t)
  show "dropWhile is_digit (ds @ r) = r" by (simp add: dropWhile_append2 [OF all] d)
qed

lemma exponent_part_start:
  "exponent_part ex \<Longrightarrow> ex = [] \<or> \<not> is_digit (hd ex) \<and> hd ex \<noteq> CHR ''.''"
  by (auto simp: exponent_part_def is_digit_def)

lemma exponent_part_digits:
  assumes "exponent_part ex" and "ex \<noteq> []"
  shows "hd ex \<in> set ''eE'' \<and> exponent_digits ex \<noteq> [] \<and> list_all is_digit (exponent_digits ex)"
proof -
  from assms obtain e sn ds where ex: "ex = e # sn @ ds" and e: "e \<in> set ''eE''"
    and sn: "sn = [] \<or> sn = ''+'' \<or> sn = ''-''" and ds: "ds \<noteq> []" "list_all is_digit ds"
    by (auto simp: exponent_part_def)
  from ds obtain d ds' where d: "ds = d # ds'" "is_digit d" by (cases ds) auto
  from sn have "exponent_digits ex = ds"
    using ex d is_digit_not_special [OF d(2)] by (auto simp: exponent_digits_def)
  with ex e ds show ?thesis by simp
qed

lemma shape_num_pattern:
  assumes "number_shape s"
  shows "num_pattern s"
proof -
  from assms obtain sg ip fr ex where s: "s = sg @ ip @ fr @ ex" and sg: "sg = [] \<or> sg = ''-''"
    and ip: "ip \<noteq> []" "list_all is_digit ip" and fr: "fraction_part fr" and ex: "exponent_part ex"
    by (auto simp: number_shape_def)
  from ip obtain d ip' where d: "ip = d # ip'" "is_digit d" by (cases ip) auto
  from sg s d is_digit_not_special [OF d(2)] have u: "unsigned s = ip @ fr @ ex"
    by (auto simp: unsigned_def)
  note st = exponent_part_start [OF ex]
  have "fr @ ex = [] \<or> \<not> is_digit (hd (fr @ ex))"
    using fr st by (auto simp: fraction_part_def is_digit_def)
  from digits_then_other [OF ip(2) this]
  have t: "takeWhile is_digit (unsigned s) = ip" and r: "dropWhile is_digit (unsigned s) = fr @ ex"
    by (simp_all add: u)
  have af: "after_fraction (fr @ ex) = ex"
  proof (cases "fr = []")
    case True
    with st show ?thesis by (cases ex) (auto simp: after_fraction_def)
  next
    case False
    with fr obtain fp where fp: "fr = CHR ''.'' # fp" "fp \<noteq> []" "list_all is_digit fp"
      by (auto simp: fraction_part_def)
    from st have "ex = [] \<or> \<not> is_digit (hd ex)" by auto
    from digits_then_other [OF fp(3) this] fp show ?thesis
      by (simp add: after_fraction_def)
  qed
  from exponent_part_digits [OF ex] t r af ip(1) show ?thesis
    by (auto simp: num_pattern_def Let_def)
qed

lemma num_pattern_iff_shape: "num_pattern s \<longleftrightarrow> number_shape s"
  using num_pattern_shape shape_num_pattern by blast

subsection \<open>Numbers beyond the range of float64\<close>

lemma power_two_le_ten:
  assumes "k \<le> 3 * n"
  shows "(2::int) ^ k \<le> 10 ^ n"
proof -
  have "(2::int) ^ k \<le> 2 ^ (3 * n)" using assms by (rule power_increasing) simp
  also have "\<dots> = (2 ^ 3) ^ n" by (rule power_mult)
  also have "\<dots> \<le> (10::int) ^ n" by (rule power_mono) simp_all
  finally show ?thesis .
qed

lemma minus_nonneg_le: "0 \<le> b \<Longrightarrow> (a::int) - b \<le> a"
  by simp

lemma large_exponent_overflows:
  assumes "0 \<le> e" and "1 \<le> m" and "1024 \<le> 3 * nat e"
  shows "overflows False m e"
proof -
  have "(0::int) \<le> 2 ^ 970" by (rule zero_le_power) simp
  then have "float64_limit \<le> 2 ^ 1024" unfolding float64_limit_def by (rule minus_nonneg_le)
  also have "\<dots> \<le> 10 ^ nat e" using assms(3) by (rule power_two_le_ten)
  also have "\<dots> \<le> m * 10 ^ nat e" using assms(2) by (simp add: mult_le_cancel_right1)
  finally show ?thesis using assms(1) by (simp add: overflows_def)
qed

lemma huge_is_out_of_range: "ParseFloat ''1e999'' = Some ErrRange"
proof -
  have "special ''1e999'' = None" "readFloat ''1e999'' = Some (1, 999, False, [])"
    by code_simp+
  moreover have "overflows False 1 999" by (rule large_exponent_overflows) simp_all
  ultimately show ?thesis by (simp add: ParseFloat_def)
qed

section \<open>Evaluations\<close>

lemma trim_examples:
  "TrimSpace '' red '' = ''red''" "TrimSpace ''Red'' = ''Red''" "TrimSpace ''purple'' = ''purple''"
  by code_simp+

lemma lower_examples:
  "ToLower ''Red'' = ''red''" "ToLower ''purple'' = ''purple''"
  by code_simp+

lemma split_examples:
  "split_on CHR '','' ''1,2,3'' = [''1'', ''2'', ''3'']"
  "split_on CHR '','' ''1,x,3'' = [''1'', ''x'', ''3'']"
  by code_simp+

lemma integer_items:
  "item_fails (typed [Integer]) ''1'' = False" "item_fails (typed [Integer]) ''2'' = False"
  "item_fails (typed [Integer]) ''3'' = False" "item_fails (typed [Integer]) ''x'' = True"
  by code_simp+

section \<open>Properties of ValidateCookieParams\<close>

text \<open>
  C1. The specification says that a cookie parameter whose schema is absent is
  validated without any error, whatever the cookie holds. In the code, line 41 reads
  \<^verbatim>\<open>sch.Type\<close> although lines 37 to 40 leave \<open>sch\<close> \<^verbatim>\<open>nil\<close> for such a parameter: with
  the parameter \<open>session\<close> declared without a schema and the cookie \<open>session=abc\<close> in
  the request, the call panics instead of returning.
\<close>

theorem absent_schema_panics:
  "snd (ValidateCookieParams simple_env
          (validator [cookie_param ''session'' None])
          (get_request ''/'' [(''session'', ''abc'')]))
   = Inl NilPointerDereference"
  by code_simp

text \<open>
  C2. Whenever the call returns, \<open>passed\<close> is true if and only if the returned errors
  are none, the path finder being one that reports at least one error when it fails;
  a request whose operation is not found is reported as failed with the errors of
  the path finder; a request in which no cookie carries the name of a cookie parameter
  is reported as passed.
\<close>

theorem passed_iff_no_errors:
  assumes "reports_failure (FindPath env request (document v))"
  shows "(\<forall>passed es. snd (ValidateCookieParams env v request) = Inr (passed, es)
            \<longrightarrow> (passed \<longleftrightarrow> es = [])) \<and>
         (resolution_failed (FindPath env request (document v)) \<longrightarrow>
            snd (ValidateCookieParams env v request)
              = Inr (False, elements (snd (FindPath env request (document v))))) \<and>
         (\<forall>item. FindPath env request (document v) = (Some item, None) \<and>
                 list_all (\<lambda>p. named p (Cookies request) = [])
                   (filter (\<lambda>p. In p = Cookie) (ExtractParamsForOperation env request item))
            \<longrightarrow> snd (ValidateCookieParams env v request) = Inr (True, []))"
proof -
  have one: "passed \<longleftrightarrow> es = []"
    if r: "snd (ValidateCookieParams env v request) = Inr (passed, es)" for passed es
  proof (cases "resolution_failed (FindPath env request (document v))")
    case True
    with assms have "elements (snd (FindPath env request (document v))) \<noteq> []"
      by (simp add: reports_failure_def)
    with r failed_returns [OF True] show ?thesis by auto
  next
    case False
    then obtain item where f: "FindPath env request (document v) = (Some item, None)"
      by (auto simp: not_failed)
    show ?thesis
    proof (cases "check_params env (Cookies request)
                    (ExtractParamsForOperation env request item) []")
      case (Inl e)
      with f r show ?thesis by (simp add: ValidateCookieParams_def)
    next
      case (Inr xs)
      from resolved_returns [OF f Inr] r show ?thesis by auto
    qed
  qed
  have two: "snd (ValidateCookieParams env v request)
              = Inr (False, elements (snd (FindPath env request (document v))))"
    if "resolution_failed (FindPath env request (document v))"
    by (simp add: failed_returns [OF that])
  have three: "snd (ValidateCookieParams env v request) = Inr (True, [])"
    if "FindPath env request (document v) = (Some item, None)"
       "list_all (\<lambda>p. named p (Cookies request) = [])
          (filter (\<lambda>p. In p = Cookie) (ExtractParamsForOperation env request item))" for item
    using resolved_returns [OF that(1) check_params_unnamed [OF that(2)]] by simp
  from one two three show ?thesis by blast
qed

theorem passed_iff_no_errors_witness:
  "reports_failure (FindPath simple_env (get_request ''/missing'' [(''id'', ''1'')])
                      (document (validator [declared ''id'' (typed [Integer])]))) \<and>
   resolution_failed (FindPath simple_env (get_request ''/missing'' [(''id'', ''1'')])
                        (document (validator [declared ''id'' (typed [Integer])]))) \<and>
   snd (ValidateCookieParams simple_env (validator [declared ''id'' (typed [Integer])])
          (get_request ''/missing'' [(''id'', ''1'')]))
     = Inr (False, [OtherValidationError ''GET Path /missing not found'']) \<and>
   reports_failure (FindPath simple_env (get_request ''/'' [(''other'', ''1'')])
                      (document (validator [cookie_param ''id'' None]))) \<and>
   snd (ValidateCookieParams simple_env (validator [cookie_param ''id'' None])
          (get_request ''/'' [(''other'', ''1'')]))
     = Inr (True, [])"
proof -
  let ?v = "validator [declared ''id'' (typed [Integer])]"
  let ?rq = "get_request ''/missing'' [(''id'', ''1'')]"
  let ?w = "validator [cookie_param ''id'' None]"
  let ?rp = "get_request ''/'' [(''other'', ''1'')]"
  have a: "reports_failure (FindPath simple_env ?rq (document ?v))"
    "resolution_failed (FindPath simple_env ?rq (document ?v))"
    "elements (snd (FindPath simple_env ?rq (document ?v)))
       = [OtherValidationError ''GET Path /missing not found'']"
    by code_simp+
  have b: "reports_failure (FindPath simple_env ?rp (document ?w))"
    "FindPath simple_env ?rp (document ?w) = (Some [cookie_param ''id'' None], None)"
    "list_all (\<lambda>p. named p (Cookies ?rp) = [])
       (filter (\<lambda>p. In p = Cookie)
          (ExtractParamsForOperation simple_env ?rp [cookie_param ''id'' None]))"
    by code_simp+
  from passed_iff_no_errors [OF a(1)] a passed_iff_no_errors [OF b(1)] b
  show ?thesis by simp
qed

text \<open>
  The validator does not stay as it was on every call: when the operation is not found,
  line 25 stores the errors of the path finder in the field \<open>errors\<close>.
\<close>

theorem validator_state_counterexample:
  "fst (ValidateCookieParams simple_env (validator []) (get_request ''/missing'' []))
     \<noteq> validator []"
  by (simp add: ValidateCookieParams_def simple_env_def validator_def get_request_def)

text \<open>
  C3, as the code has it. The pair that is returned does not depend on the field
  \<open>errors\<close> of the validator, so a second call with the same document and request
  returns what the first one did; the document of the validator is never changed; the
  validator is left as it was when the operation is found, and has the errors of the
  path finder in its field \<open>errors\<close> when it is not. The request is only read: the
  method hands no request back.
\<close>

theorem result_ignores_validator_state:
  "snd (ValidateCookieParams env (v\<lparr>errors := e\<rparr>) request)
     = snd (ValidateCookieParams env v request) \<and>
   snd (ValidateCookieParams env (fst (ValidateCookieParams env v request)) request)
     = snd (ValidateCookieParams env v request) \<and>
   document (fst (ValidateCookieParams env v request)) = document v \<and>
   (resolution_failed (FindPath env request (document v)) \<longrightarrow>
      fst (ValidateCookieParams env v request)
        = v\<lparr>errors := snd (FindPath env request (document v))\<rparr>) \<and>
   (\<not> resolution_failed (FindPath env request (document v)) \<longrightarrow>
      fst (ValidateCookieParams env v request) = v)"
proof -
  have one: "snd (ValidateCookieParams env (v\<lparr>errors := e\<rparr>) request)
     = snd (ValidateCookieParams env v request)" for e
    by (simp add: ValidateCookieParams_def split: prod.splits option.splits sum.splits)
  have four: "fst (ValidateCookieParams env v request)
        = v\<lparr>errors := snd (FindPath env request (document v))\<rparr>"
    if "resolution_failed (FindPath env request (document v))"
    by (simp add: failed_returns [OF that])
  have five: "fst (ValidateCookieParams env v request) = v"
    if "\<not> resolution_failed (FindPath env request (document v))"
    using that
    by (auto simp: not_failed ValidateCookieParams_def split: sum.splits)
  have three: "document (fst (ValidateCookieParams env v request)) = document v"
    by (cases "resolution_failed (FindPath env request (document v))")
       (simp_all add: four five)
  have two: "snd (ValidateCookieParams env (fst (ValidateCookieParams env v request)) request)
     = snd (ValidateCookieParams env v request)"
    by (cases "resolution_failed (FindPath env request (document v))")
       (simp_all add: four five one)
  from one two three four five show ?thesis by blast
qed

theorem result_ignores_validator_state_witness:
  "resolution_failed (FindPath simple_env (get_request ''/missing'' []) (document (validator []))) \<and>
   fst (ValidateCookieParams simple_env (validator []) (get_request ''/missing'' []))
     = (validator [])\<lparr>errors := Some [OtherValidationError ''GET Path /missing not found'']\<rparr> \<and>
   \<not> resolution_failed (FindPath simple_env (get_request ''/'' []) (document (validator []))) \<and>
   fst (ValidateCookieParams simple_env (validator []) (get_request ''/'' [])) = validator []"
proof -
  have a: "resolution_failed (FindPath simple_env (get_request ''/missing'' []) (document (validator [])))"
    "\<not> resolution_failed (FindPath simple_env (get_request ''/'' []) (document (validator [])))"
    "snd (FindPath simple_env (get_request ''/missing'' []) (document (validator [])))
       = Some [OtherValidationError ''GET Path /missing not found'']"
    by code_simp+
  from result_ignores_validator_state
         [where env = simple_env and v = "validator []" and e = None
            and request = "get_request ''/missing'' []"]
       result_ignores_validator_state
         [where env = simple_env and v = "validator []" and e = None
            and request = "get_request ''/'' []"]
       a
  show ?thesis by simp
qed

text \<open>
  The boolean check does not ignore the letter case: \<open>tRUE\<close> is \<open>true\<close> up to case,
  and is refused.
\<close>

theorem bool_spelling_counterexample:
  "bool_spelling ''tRUE'' \<and>
   snd (ValidateCookieParams simple_env
          (validator [declared ''flag'' (typed [Boolean])])
          (get_request ''/'' [(''flag'', ''tRUE'')]))
   = Inr (False, [IncorrectCookieParamBool (declared ''flag'' (typed [Boolean])) ''true''
                    (typed [Boolean])])"
  by code_simp

text \<open>
  C4, as the code has it. The boolean check adds no error for the twelve spellings
  \<open>1\<close>, \<open>t\<close>, \<open>T\<close>, \<open>true\<close>, \<open>TRUE\<close>, \<open>True\<close>, \<open>0\<close>, \<open>f\<close>, \<open>F\<close>, \<open>false\<close>, \<open>FALSE\<close>
  and \<open>False\<close>; for every other value it adds exactly one error, which records the
  value in lower case.
\<close>

theorem boolean_check:
  "check_type env p c s Boolean =
     (if CookieValue c \<in> set [''1'', ''t'', ''T'', ''true'', ''TRUE'', ''True'',
                               ''0'', ''f'', ''F'', ''false'', ''FALSE'', ''False'']
      then Inr []
      else Inr [IncorrectCookieParamBool p (ToLower (CookieValue c)) s])"
  by (simp add: check_type_def tags_distinct ParseBool_def)

theorem boolean_check_witness:
  "check_type simple_env (declared ''flag'' (typed [Boolean]))
     \<lparr> CookieName = ''flag'', CookieValue = ''maybe'' \<rparr> (typed [Boolean]) Boolean
   = Inr [IncorrectCookieParamBool (declared ''flag'' (typed [Boolean])) ''maybe'' (typed [Boolean])]
   \<and>
   check_type simple_env (declared ''flag'' (typed [Boolean]))
     \<lparr> CookieName = ''flag'', CookieValue = ''TRUE'' \<rparr> (typed [Boolean]) Boolean
   = Inr []"
proof -
  have low: "ToLower ''maybe'' = ''maybe''" by code_simp
  show ?thesis
    using boolean_check [of simple_env "declared ''flag'' (typed [Boolean])"
            "\<lparr> CookieName = ''flag'', CookieValue = ''maybe'' \<rparr>" "typed [Boolean]"]
          boolean_check [of simple_env "declared ''flag'' (typed [Boolean])"
            "\<lparr> CookieName = ''flag'', CookieValue = ''TRUE'' \<rparr>" "typed [Boolean]"]
    by (simp add: low)
qed

text \<open>
  C5. Validation is exhaustive. When the operation is found and the cookie parameters
  are well formed, the call returns the errors of every cookie parameter, of every
  cookie of its name and of every declared type tag, in this order, and \<open>passed\<close>
  tells whether there are none; the numeric, boolean and enum checks append at most
  one error each (the array and object checks append the errors that their validators
  return); a value that fails the checks of two declared tags yields two errors, and
  the parameters after it are still checked.
\<close>

theorem validation_is_exhaustive:
  assumes "FindPath env request (document v) = (Some item, None)"
    and "list_all well_formed
           (filter (\<lambda>p. In p = Cookie) (ExtractParamsForOperation env request item))"
  shows "snd (ValidateCookieParams env v request)
           = Inr (all_errors env (Cookies request) (ExtractParamsForOperation env request item) = [],
                  all_errors env (Cookies request) (ExtractParamsForOperation env request item)) \<and>
         (\<forall>p c s. \<forall>ty \<in> {Integer, Number, Boolean, String}.
            length (type_errors env p c s ty) \<le> 1) \<and>
         snd (ValidateCookieParams simple_env
                (validator [declared ''id'' (typed [Integer, Boolean]),
                            declared ''flag'' (typed [Boolean])])
                (get_request ''/'' [(''id'', ''abc''), (''flag'', ''maybe'')]))
           = Inr (False,
                  [InvalidCookieParamNumber (declared ''id'' (typed [Integer, Boolean])) ''abc''
                     (typed [Integer, Boolean]),
                   IncorrectCookieParamBool (declared ''id'' (typed [Integer, Boolean])) ''abc''
                     (typed [Integer, Boolean]),
                   IncorrectCookieParamBool (declared ''flag'' (typed [Boolean])) ''maybe''
                     (typed [Boolean])])"
proof -
  have run: "check_params env (Cookies request) (ExtractParamsForOperation env request item) []
             = Inr (all_errors env (Cookies request) (ExtractParamsForOperation env request item))"
    using check_params_returns [OF assms(2), of env "Cookies request" "[]"] by simp
  have one: "snd (ValidateCookieParams env v request)
           = Inr (all_errors env (Cookies request) (ExtractParamsForOperation env request item) = [],
                  all_errors env (Cookies request) (ExtractParamsForOperation env request item))"
    by (simp add: resolved_returns [OF assms(1) run])
  have two: "\<forall>p c s. \<forall>ty \<in> {Integer, Number, Boolean, String}.
            length (type_errors env p c s ty) \<le> 1"
    using scalar_tag_errors by blast
  have three: "snd (ValidateCookieParams simple_env
                (validator [declared ''id'' (typed [Integer, Boolean]),
                            declared ''flag'' (typed [Boolean])])
                (get_request ''/'' [(''id'', ''abc''), (''flag'', ''maybe'')]))
           = Inr (False,
                  [InvalidCookieParamNumber (declared ''id'' (typed [Integer, Boolean])) ''abc''
                     (typed [Integer, Boolean]),
                   IncorrectCookieParamBool (declared ''id'' (typed [Integer, Boolean])) ''abc''
                     (typed [Integer, Boolean]),
                   IncorrectCookieParamBool (declared ''flag'' (typed [Boolean])) ''maybe''
                     (typed [Boolean])])"
    by code_simp
  from one two three show ?thesis by blast
qed

theorem validation_is_exhaustive_witness:
  "FindPath simple_env (get_request ''/'' [(''id'', ''abc''), (''flag'', ''maybe'')])
     (document (validator [declared ''id'' (typed [Integer, Boolean]),
                           declared ''flag'' (typed [Boolean])]))
     = (Some [declared ''id'' (typed [Integer, Boolean]), declared ''flag'' (typed [Boolean])], None) \<and>
   list_all well_formed
     (filter (\<lambda>p. In p = Cookie)
        (ExtractParamsForOperation simple_env
           (get_request ''/'' [(''id'', ''abc''), (''flag'', ''maybe'')])
           [declared ''id'' (typed [Integer, Boolean]), declared ''flag'' (typed [Boolean])])) \<and>
   length (all_errors simple_env
             (Cookies (get_request ''/'' [(''id'', ''abc''), (''flag'', ''maybe'')]))
             [declared ''id'' (typed [Integer, Boolean]), declared ''flag'' (typed [Boolean])]) = 3 \<and>
   (\<exists>es. snd (ValidateCookieParams simple_env
                (validator [declared ''id'' (typed [Integer, Boolean]),
                            declared ''flag'' (typed [Boolean])])
                (get_request ''/'' [(''id'', ''abc''), (''flag'', ''maybe'')]))
          = Inr (False, es) \<and> length es = 3)"
proof -
  let ?ps = "[declared ''id'' (typed [Integer, Boolean]), declared ''flag'' (typed [Boolean])]"
  let ?rq = "get_request ''/'' [(''id'', ''abc''), (''flag'', ''maybe'')]"
  have a: "FindPath simple_env ?rq (document (validator ?ps)) = (Some ?ps, None)"
    by code_simp
  have b: "list_all well_formed
             (filter (\<lambda>p. In p = Cookie) (ExtractParamsForOperation simple_env ?rq ?ps))"
    by code_simp
  have c: "length (all_errors simple_env (Cookies ?rq) ?ps) = 3"
    by code_simp
  have d: "ExtractParamsForOperation simple_env ?rq ?ps = ?ps"
    by (simp add: simple_env_def)
  from c have e: "all_errors simple_env (Cookies ?rq) ?ps \<noteq> []" by auto
  from validation_is_exhaustive [OF a b] a b c d e show ?thesis by simp
qed

text \<open>
  C6. For a schema with an enum, the string check adds no error if and only if the
  cookie value without its leading and trailing white space is one of the enum entries,
  letter case included, and adds one error otherwise; with the entries \<open>red\<close>,
  \<open>green\<close> and \<open>blue\<close>, the value \<open>red\<close> between spaces passes, \<open>Red\<close> and \<open>purple\<close>
  add one error each. A schema without an enum never adds an error.
\<close>

theorem enum_check:
  "(Enum s = None \<longrightarrow> check_type env p c s String = Inr []) \<and>
   (\<forall>enum. Enum s = Some enum \<longrightarrow>
      check_type env p c s String =
        (if TrimSpace (CookieValue c) \<in> set enum then Inr []
         else Inr [IncorrectCookieParamEnum p (ToLower (CookieValue c)) s])) \<and>
   check_type env p \<lparr> CookieName = n, CookieValue = '' red '' \<rparr> colours String = Inr [] \<and>
   check_type env p \<lparr> CookieName = n, CookieValue = ''Red'' \<rparr> colours String
     = Inr [IncorrectCookieParamEnum p ''red'' colours] \<and>
   check_type env p \<lparr> CookieName = n, CookieValue = ''purple'' \<rparr> colours String
     = Inr [IncorrectCookieParamEnum p ''purple'' colours]"
  by (simp add: check_type_def tags_distinct list_ex_iff colours_def trim_examples lower_examples)

theorem enum_check_witness:
  "Enum colours = Some [''red'', ''green'', ''blue''] \<and>
   check_type simple_env (declared ''colour'' colours)
     \<lparr> CookieName = ''colour'', CookieValue = '' green '' \<rparr> colours String = Inr [] \<and>
   Enum (typed [String]) = None \<and>
   check_type simple_env (declared ''colour'' (typed [String]))
     \<lparr> CookieName = ''colour'', CookieValue = ''anything'' \<rparr> (typed [String]) String = Inr []"
proof -
  have t: "TrimSpace '' green '' = ''green''" by code_simp
  show ?thesis
    using enum_check [of colours simple_env "declared ''colour'' colours"
            "\<lparr> CookieName = ''colour'', CookieValue = '' green '' \<rparr>" "''colour''"]
          enum_check [of "typed [String]" simple_env "declared ''colour'' (typed [String])"
            "\<lparr> CookieName = ''colour'', CookieValue = ''anything'' \<rparr>" "''colour''"]
    by (simp add: t colours_def typed_def)
qed

text \<open>
  A value of the pattern can fail the numeric check: \<open>1e999\<close> is out of the range of
  float64, \<^verbatim>\<open>ParseFloat\<close> returns a range error and the check adds an error.
\<close>

theorem num_pattern_counterexample:
  "num_pattern ''1e999'' \<and>
   snd (ValidateCookieParams simple_env
          (validator [declared ''n'' (typed [Number])])
          (get_request ''/'' [(''n'', ''1e999'')]))
   = Inr (False, [InvalidCookieParamNumber (declared ''n'' (typed [Number])) ''1e999''
                    (typed [Number])])"
proof -
  have p: "num_pattern ''1e999''" and l: "ToLower ''1e999'' = ''1e999''" by code_simp+
  have "check_type simple_env (declared ''n'' (typed [Number]))
          \<lparr> CookieName = ''n'', CookieValue = ''1e999'' \<rparr> (typed [Number]) Number
        = Inr [InvalidCookieParamNumber (declared ''n'' (typed [Number])) ''1e999'' (typed [Number])]"
    by (simp add: check_type_def huge_is_out_of_range l)
  then have "snd (ValidateCookieParams simple_env
          (validator [declared ''n'' (typed [Number])])
          (get_request ''/'' [(''n'', ''1e999'')]))
   = Inr (False, [InvalidCookieParamNumber (declared ''n'' (typed [Number])) ''1e999''
                    (typed [Number])])"
    by (simp add: ValidateCookieParams_def simple_env_def validator_def get_request_def
          check_cookie_def declared_def cookie_param_def typed_def)
  with p show ?thesis by simp
qed

text \<open>
  C7, as the code has it. \<^verbatim>\<open>ParseFloat\<close> reads every value of the pattern as a decimal
  number, without a syntax error, and reports a range error exactly when the number
  read overflows float64; so the check of an integer or number tag adds no error for
  a value of the pattern unless the value is out of range. Any value for which
  \<^verbatim>\<open>ParseFloat\<close> returns an error (\<open>abc\<close> is one) adds exactly one error, which
  records the value in lower case.
\<close>

theorem numeric_check:
  assumes "ty = Integer \<or> ty = Number"
  shows "(num_pattern (CookieValue c) \<longrightarrow>
            (\<exists>m e. readFloat (CookieValue c) = Some (m, e, False, []) \<and>
                   (ParseFloat (CookieValue c) = Some ErrRange \<longleftrightarrow> overflows False m e)) \<and>
            ParseFloat (CookieValue c) \<noteq> Some ErrSyntax) \<and>
         (num_pattern (CookieValue c) \<and> ParseFloat (CookieValue c) \<noteq> Some ErrRange \<longrightarrow>
            check_type env p c s ty = Inr []) \<and>
         (ParseFloat (CookieValue c) \<noteq> None \<longrightarrow>
            check_type env p c s ty
              = Inr [InvalidCookieParamNumber p (ToLower (CookieValue c)) s]) \<and>
         ParseFloat ''abc'' = Some ErrSyntax"
proof -
  have abc: "ParseFloat ''abc'' = Some ErrSyntax" by code_simp
  have read: "\<exists>m e. readFloat (CookieValue c) = Some (m, e, False, []) \<and>
                (ParseFloat (CookieValue c) = Some ErrRange \<longleftrightarrow> overflows False m e)"
    if "num_pattern (CookieValue c)"
  proof -
    from that have sh: "number_shape (CookieValue c)" by (rule num_pattern_shape)
    from readFloat_number [OF sh] obtain m e where
      r: "readFloat (CookieValue c) = Some (m, e, False, [])" by blast
    with special_number [OF sh]
    have "ParseFloat (CookieValue c) = Some ErrRange \<longleftrightarrow> overflows False m e"
      by (simp add: ParseFloat_def)
    with r show ?thesis by blast
  qed
  have none: "ParseFloat (CookieValue c) = None"
    if "num_pattern (CookieValue c)" "ParseFloat (CookieValue c) \<noteq> Some ErrRange"
  proof (cases "ParseFloat (CookieValue c)")
    case None
    then show ?thesis .
  next
    case (Some e)
    with that ParseFloat_number [OF that(1)] show ?thesis by (cases e) simp_all
  qed
  from abc read none ParseFloat_number show ?thesis
    by (simp add: numeric_tag [OF assms])
qed

theorem numeric_check_witness:
  "num_pattern ''-12.5e3'' \<and> ParseFloat ''-12.5e3'' = None \<and>
   check_type simple_env (declared ''n'' (typed [Integer]))
     \<lparr> CookieName = ''n'', CookieValue = ''-12.5e3'' \<rparr> (typed [Integer]) Integer = Inr [] \<and>
   ParseFloat ''0X1G'' = Some ErrSyntax \<and>
   check_type simple_env (declared ''n'' (typed [Integer]))
     \<lparr> CookieName = ''n'', CookieValue = ''0X1G'' \<rparr> (typed [Integer]) Integer
     = Inr [InvalidCookieParamNumber (declared ''n'' (typed [Integer])) ''0x1g'' (typed [Integer])]"
proof -
  have a: "num_pattern ''-12.5e3''" "ParseFloat ''-12.5e3'' = None"
    "ParseFloat ''0X1G'' = Some ErrSyntax" "ToLower ''0X1G'' = ''0x1g''"
    by code_simp+
  show ?thesis
    using numeric_check [of Integer "\<lparr> CookieName = ''n'', CookieValue = ''-12.5e3'' \<rparr>"
            simple_env "declared ''n'' (typed [Integer])" "typed [Integer]"]
          numeric_check [of Integer "\<lparr> CookieName = ''n'', CookieValue = ''0X1G'' \<rparr>"
            simple_env "declared ''n'' (typed [Integer])" "typed [Integer]"]
    by (simp add: a)
qed

text \<open>
  C8. The specification says that the array check is skipped, without any error, for a
  parameter that is exploded or whose schema has no item schema, or a boolean one. The
  code skips the check for an exploded parameter and for a boolean item schema, but
  for a schema without \<^verbatim>\<open>items\<close> line 78 calls \<^verbatim>\<open>IsA\<close> through the \<^verbatim>\<open>nil\<close> pointer
  \<^verbatim>\<open>sch.Items\<close>: with the parameter \<open>ids\<close> declared as an array without items, not
  exploded, and the cookie \<open>ids=1,2,3\<close>, the call panics instead of returning.
\<close>

theorem array_without_items_panics:
  "snd (ValidateCookieParams simple_env
          (validator [declared ''ids'' (typed [Array])])
          (get_request ''/'' [(''ids'', ''1,2,3'')]))
   = Inl NilPointerDereference"
  by code_simp

text \<open>
  C9. For an array parameter that is not exploded, with the item schema of type
  integer, the value \<open>1,2,3\<close> adds no error and the value \<open>1,x,3\<close> adds exactly one
  array item error, for the item \<open>x\<close>; so the call returns \<open>passed = false\<close> with one
  error for such a cookie (the same for \<open>1,two,3\<close> and its item \<open>two\<close>). The array
  validator is the one modelled from the specification.
\<close>

theorem array_items_checked:
  assumes "ValidateCookieArray env = ValidateCookieArray_spec" and "\<not> IsExploded p"
  shows "check_type env p \<lparr> CookieName = n, CookieValue = ''1,2,3'' \<rparr>
           (array_of (typed [Integer])) Array = Inr [] \<and>
         check_type env p \<lparr> CookieName = n, CookieValue = ''1,x,3'' \<rparr>
           (array_of (typed [Integer])) Array
           = Inr [IncorrectCookieParamArrayItem p ''x'' (array_of (typed [Integer]))] \<and>
         snd (ValidateCookieParams simple_env
                (validator [declared ''ids'' (array_of (typed [Integer]))])
                (get_request ''/'' [(''ids'', ''1,2,3'')]))
           = Inr (True, []) \<and>
         snd (ValidateCookieParams simple_env
                (validator [declared ''ids'' (array_of (typed [Integer]))])
                (get_request ''/'' [(''ids'', ''1,x,3'')]))
           = Inr (False, [IncorrectCookieParamArrayItem
                            (declared ''ids'' (array_of (typed [Integer]))) ''x''
                            (array_of (typed [Integer]))]) \<and>
         snd (ValidateCookieParams simple_env
                (validator [declared ''ids'' (array_of (typed [Integer]))])
                (get_request ''/'' [(''ids'', ''1,two,3'')]))
           = Inr (False, [IncorrectCookieParamArrayItem
                            (declared ''ids'' (array_of (typed [Integer]))) ''two''
                            (array_of (typed [Integer]))])"
proof -
  have one: "check_type env p \<lparr> CookieName = n, CookieValue = ''1,2,3'' \<rparr>
           (array_of (typed [Integer])) Array = Inr []"
    using assms
    by (simp add: check_type_def tags_distinct array_of_def ValidateCookieArray_spec_def
          split_examples integer_items)
  have two: "check_type env p \<lparr> CookieName = n, CookieValue = ''1,x,3'' \<rparr>
           (array_of (typed [Integer])) Array
           = Inr [IncorrectCookieParamArrayItem p ''x'' (array_of (typed [Integer]))]"
    using assms
    by (simp add: check_type_def tags_distinct array_of_def ValidateCookieArray_spec_def
          split_examples integer_items)
  have three: "snd (ValidateCookieParams simple_env
                (validator [declared ''ids'' (array_of (typed [Integer]))])
                (get_request ''/'' [(''ids'', ''1,2,3'')]))
           = Inr (True, [])"
    by code_simp
  have four: "snd (ValidateCookieParams simple_env
                (validator [declared ''ids'' (array_of (typed [Integer]))])
                (get_request ''/'' [(''ids'', ''1,x,3'')]))
           = Inr (False, [IncorrectCookieParamArrayItem
                            (declared ''ids'' (array_of (typed [Integer]))) ''x''
                            (array_of (typed [Integer]))])"
    by code_simp
  have five: "snd (ValidateCookieParams simple_env
                (validator [declared ''ids'' (array_of (typed [Integer]))])
                (get_request ''/'' [(''ids'', ''1,two,3'')]))
           = Inr (False, [IncorrectCookieParamArrayItem
                            (declared ''ids'' (array_of (typed [Integer]))) ''two''
                            (array_of (typed [Integer]))])"
    by code_simp
  from one two three four five show ?thesis by simp
qed

theorem array_items_checked_witness:
  "ValidateCookieArray simple_env = ValidateCookieArray_spec \<and>
   \<not> IsExploded (declared ''ids'' (array_of (typed [Integer]))) \<and>
   check_type simple_env (declared ''ids'' (array_of (typed [Integer])))
     \<lparr> CookieName = ''ids'', CookieValue = ''1,x,3'' \<rparr> (array_of (typed [Integer])) Array
     = Inr [IncorrectCookieParamArrayItem (declared ''ids'' (array_of (typed [Integer]))) ''x''
              (array_of (typed [Integer]))]"
proof -
  have a: "ValidateCookieArray simple_env = ValidateCookieArray_spec"
    by (simp add: simple_env_def)
  have b: "\<not> IsExploded (declared ''ids'' (array_of (typed [Integer])))"
    by (simp add: IsExploded_def declared_def cookie_param_def)
  from array_items_checked [OF a b, of "''ids''"] a b show ?thesis by simp
qed

text \<open>
  C10. A cookie whose name differs from the name of the parameter, were it only by
  letter case, is passed over: no check runs on it, even for a parameter without a
  schema. Every cookie that carries the name of a well-formed parameter is checked
  against all the declared type tags, so each of several cookies of one name
  contributes the errors of its own value, in the order of the cookies.
\<close>

theorem same_named_cookies_each_checked:
  "(CookieName c \<noteq> Name p \<longrightarrow> check_cookie env p c acc = Inr acc) \<and>
   (\<forall>s. declared_schema p = Some s \<and> well_formed p \<longrightarrow>
      check_cookies env p cs acc
        = Inr (acc @ concat (map (\<lambda>c. concat (map (type_errors env p c s) (Type s)))
                               (filter (\<lambda>c. CookieName c = Name p) cs)))) \<and>
   (\<forall>item. FindPath env request (document v) = (Some item, None) \<and>
           list_all well_formed
             (filter (\<lambda>p. In p = Cookie) (ExtractParamsForOperation env request item)) \<longrightarrow>
      snd (ValidateCookieParams env v request)
        = Inr (all_errors env (Cookies request) (ExtractParamsForOperation env request item) = [],
               concat (map (\<lambda>p. concat (map (cookie_errors env p)
                                          (filter (\<lambda>c. CookieName c = Name p) (Cookies request))))
                         (filter (\<lambda>p. In p = Cookie)
                            (ExtractParamsForOperation env request item))))) \<and>
   snd (ValidateCookieParams simple_env
          (validator [declared ''id'' (typed [Integer])])
          (get_request ''/'' [(''id'', ''x''), (''ID'', ''y''), (''id'', ''7''), (''id'', ''z'')]))
     = Inr (False,
            [InvalidCookieParamNumber (declared ''id'' (typed [Integer])) ''x'' (typed [Integer]),
             InvalidCookieParamNumber (declared ''id'' (typed [Integer])) ''z'' (typed [Integer])])"
proof -
  have one: "CookieName c \<noteq> Name p \<longrightarrow> check_cookie env p c acc = Inr acc"
    by (simp add: check_cookie_other_name)
  have two: "check_cookies env p cs acc
        = Inr (acc @ concat (map (\<lambda>c. concat (map (type_errors env p c s) (Type s)))
                               (filter (\<lambda>c. CookieName c = Name p) cs)))"
    if "declared_schema p = Some s" "well_formed p" for s
  proof -
    from that(1) have "cookie_errors env p = (\<lambda>c. concat (map (type_errors env p c s) (Type s)))"
      by (simp add: cookie_errors_def fun_eq_iff)
    with check_cookies_returns [OF that(2), of env cs acc] show ?thesis
      by (simp add: named_def)
  qed
  have three: "snd (ValidateCookieParams simple_env
          (validator [declared ''id'' (typed [Integer])])
          (get_request ''/'' [(''id'', ''x''), (''ID'', ''y''), (''id'', ''7''), (''id'', ''z'')]))
     = Inr (False,
            [InvalidCookieParamNumber (declared ''id'' (typed [Integer])) ''x'' (typed [Integer]),
             InvalidCookieParamNumber (declared ''id'' (typed [Integer])) ''z'' (typed [Integer])])"
    by code_simp
  have four: "snd (ValidateCookieParams env v request)
        = Inr (all_errors env (Cookies request) (ExtractParamsForOperation env request item) = [],
               concat (map (\<lambda>p. concat (map (cookie_errors env p)
                                          (filter (\<lambda>c. CookieName c = Name p) (Cookies request))))
                         (filter (\<lambda>p. In p = Cookie)
                            (ExtractParamsForOperation env request item))))"
    if f: "FindPath env request (document v) = (Some item, None)"
      and w: "list_all well_formed
                (filter (\<lambda>p. In p = Cookie) (ExtractParamsForOperation env request item))"
    for item
  proof -
    have "check_params env (Cookies request) (ExtractParamsForOperation env request item) []
            = Inr (all_errors env (Cookies request) (ExtractParamsForOperation env request item))"
      using check_params_returns [OF w, of env "Cookies request" "[]"] by simp
    from resolved_returns [OF f this] show ?thesis
      by (simp add: all_errors_def named_def)
  qed
  from one two three four show ?thesis by blast
qed

theorem same_named_cookies_each_checked_witness:
  "CookieName \<lparr> CookieName = ''ID'', CookieValue = ''y'' \<rparr> \<noteq> Name (cookie_param ''id'' None) \<and>
   check_cookie simple_env (cookie_param ''id'' None)
     \<lparr> CookieName = ''ID'', CookieValue = ''y'' \<rparr> [] = Inr [] \<and>
   declared_schema (declared ''id'' (typed [Integer])) = Some (typed [Integer]) \<and>
   well_formed (declared ''id'' (typed [Integer])) \<and>
   check_cookies simple_env (declared ''id'' (typed [Integer]))
     [\<lparr> CookieName = ''id'', CookieValue = ''x'' \<rparr>, \<lparr> CookieName = ''ID'', CookieValue = ''y'' \<rparr>,
      \<lparr> CookieName = ''id'', CookieValue = ''z'' \<rparr>] []
     = Inr [InvalidCookieParamNumber (declared ''id'' (typed [Integer])) ''x'' (typed [Integer]),
            InvalidCookieParamNumber (declared ''id'' (typed [Integer])) ''z'' (typed [Integer])]"
proof -
  let ?p = "declared ''id'' (typed [Integer])"
  have a: "CookieName \<lparr> CookieName = ''ID'', CookieValue = ''y'' \<rparr> \<noteq> Name (cookie_param ''id'' None)"
    by (simp add: cookie_param_def)
  have b: "declared_schema ?p = Some (typed [Integer])" "well_formed ?p"
    by code_simp+
  have c: "concat (map (\<lambda>c. concat (map (type_errors simple_env ?p c (typed [Integer]))
                                       (Type (typed [Integer]))))
             (filter (\<lambda>c. CookieName c = Name ?p)
                [\<lparr> CookieName = ''id'', CookieValue = ''x'' \<rparr>,
                 \<lparr> CookieName = ''ID'', CookieValue = ''y'' \<rparr>,
                 \<lparr> CookieName = ''id'', CookieValue = ''z'' \<rparr>]))
           = [InvalidCookieParamNumber ?p ''x'' (typed [Integer]),
              InvalidCookieParamNumber ?p ''z'' (typed [Integer])]"
    by code_simp
  from same_named_cookies_each_checked
         [where c = "\<lparr> CookieName = ''ID'', CookieValue = ''y'' \<rparr>"
            and p = "cookie_param ''id'' None" and env = simple_env and acc = "[]"]
       a
  have d: "check_cookie simple_env (cookie_param ''id'' None)
             \<lparr> CookieName = ''ID'', CookieValue = ''y'' \<rparr> [] = Inr []"
    by blast
  from same_named_cookies_each_checked
         [where p = ?p and env = simple_env and acc = "[]"
            and cs = "[\<lparr> CookieName = ''id'', CookieValue = ''x'' \<rparr>,
                      \<lparr> CookieName = ''ID'', CookieValue = ''y'' \<rparr>,
                      \<lparr> CookieName = ''id'', CookieValue = ''z'' \<rparr>]"] b
  have e: "check_cookies simple_env ?p
     [\<lparr> CookieName = ''id'', CookieValue = ''x'' \<rparr>, \<lparr> CookieName = ''ID'', CookieValue = ''y'' \<rparr>,
      \<lparr> CookieName = ''id'', CookieValue = ''z'' \<rparr>] []
     = Inr ([] @ concat (map (\<lambda>c. concat (map (type_errors simple_env ?p c (typed [Integer]))
                                       (Type (typed [Integer]))))
             (filter (\<lambda>c. CookieName c = Name ?p)
                [\<lparr> CookieName = ''id'', CookieValue = ''x'' \<rparr>,
                 \<lparr> CookieName = ''ID'', CookieValue = ''y'' \<rparr>,
                 \<lparr> CookieName = ''id'', CookieValue = ''z'' \<rparr>])))"
    by blast
  from a b d e c show ?thesis by simp
qed

end
